theory Spec2Isabelle
  imports Main
begin

section \<open>Machine arithmetic of the Go sources\<close>

text \<open>
  Go's \<open>int\<close> (on the 64-bit platforms the crawler is built for), \<open>int64\<close> and
  \<open>time.Duration\<close> (an \<open>int64\<close> count of nanoseconds) are modelled as \<open>int\<close> with the
  two's-complement wrap-around written out by \<open>wrap64\<close>. Integer division truncates
  towards zero (\<open>quo64\<close>); dividing by zero panics and is checked by the caller of
  \<open>quo64\<close>. Instants (\<open>time.Time\<close>) are nanosecond counts on an unbounded axis.
\<close>

definition MinInt64 :: int where
  "MinInt64 = - (2 ^ 63)"

definition MaxInt64 :: int where
  "MaxInt64 = 2 ^ 63 - 1"

definition wrap64 :: "int \<Rightarrow> int" where
  "wrap64 x = (x + 2 ^ 63) mod 2 ^ 64 - 2 ^ 63"

definition sat64 :: "int \<Rightarrow> int" where
  "sat64 x = (if x < MinInt64 then MinInt64 else if x > MaxInt64 then MaxInt64 else x)"

definition to_uint64 :: "int \<Rightarrow> int" where
  "to_uint64 x = x mod 2 ^ 64"

definition shl64 :: "int \<Rightarrow> int \<Rightarrow> int" where
  "shl64 x s = (if s \<ge> 64 then 0 else wrap64 (x * 2 ^ nat s))"

definition quo64 :: "int \<Rightarrow> int \<Rightarrow> int" where
  "quo64 a b = wrap64 (sgn a * sgn b * (\<bar>a\<bar> div \<bar>b\<bar>))"

definition Millisecond :: int where
  "Millisecond = 1000000"

definition Second :: int where
  "Second = 1000000000"

text \<open>\<open>time.Since(start)\<close> read at instant \<open>now\<close>: \<open>Time.Sub\<close> saturates.\<close>

definition Since :: "int \<Rightarrow> int \<Rightarrow> int" where
  "Since start now = sat64 (now - start)"

section \<open>Task identifiers (pool.go, extractIDFromURL)\<close>

text \<open>
  A Go string is a byte sequence, here a \<open>string\<close>. \<open>strings.LastIndex s substr\<close> is
  the index of the last instance of \<open>substr\<close> in \<open>s\<close>, or \<open>-1\<close>; the candidates are
  tried from the rightmost position downwards.
\<close>

fun last_index_from :: "nat \<Rightarrow> string \<Rightarrow> string \<Rightarrow> int" where
  "last_index_from 0 s substr = (if take (length substr) s = substr then 0 else - 1)"
| "last_index_from (Suc i) s substr =
     (if take (length substr) (drop (Suc i) s) = substr then int (Suc i)
      else last_index_from i s substr)"

definition LastIndex :: "string \<Rightarrow> string \<Rightarrow> int" where
  "LastIndex s substr =
     (if length substr > length s then - 1
      else last_index_from (length s - length substr) s substr)"

definition Contains :: "string \<Rightarrow> string \<Rightarrow> bool" where
  "Contains s substr = (LastIndex s substr \<noteq> - 1)"

definition extractIDFromURL :: "string \<Rightarrow> string" where
  "extractIDFromURL url =
     (let idx = LastIndex url ''/article/id/'' in
      if idx \<noteq> - 1 then drop (nat (idx + int (length ''/article/id/''))) url
      else
        let idx = LastIndex url ''/article/doi/'' in
        if idx \<noteq> - 1 then drop (nat (idx + int (length ''/article/doi/''))) url
        else url)"

section \<open>The fetcher (package fetcher)\<close>

text \<open>
  Errors are values. Each constructor is one \<open>fmt.Errorf\<close> format of the sources; the
  text of an error coming from the standard library is a \<open>string\<close>.
\<close>

datatype error =
    ErrCreateRequest string
  | ErrHTTPRequest string
  | ErrReadBody string
  | ErrHTTPStatus int
  | ErrMaxRetries "error option"
  | ErrFetchFailed error
  | ErrHTTP error
  | ErrParseFailed error
  | ErrPanic string
  | ErrOther string

record Fetcher =
  userAgent :: string
  timeout :: int
  maxRetries :: int
  verbose :: bool

record FetchResult =
  fr_URL :: string
  fr_StatusCode :: int
  fr_Body :: "string option"
  fr_Error :: "error option"
  fr_Attempts :: int
  fr_Duration :: int

definition NewFetcher :: "int \<Rightarrow> int \<Rightarrow> int \<Rightarrow> bool \<Rightarrow> Fetcher" where
  "NewFetcher tmo retries rateLimit verb =
     \<lparr>userAgent = ''Mozilla/5.0 (Windows NT 10.0; Win64; x64) AppleWebKit/537.36 (KHTML, like Gecko) Chrome/120.0.0.0 Safari/537.36'',
      timeout = tmo, maxRetries = retries, verbose = verb\<rparr>"

definition backoffDuration :: "int \<Rightarrow> int" where
  "backoffDuration attempt =
     (let backoff = wrap64 (shl64 1 (to_uint64 (wrap64 (attempt - 1))) * Second)
      in if backoff > wrap64 (30 * Second) then wrap64 (30 * Second) else backoff)"

text \<open>
  What one pass of the retry loop meets outside the program: building the request
  fails, \<open>client.Do\<close> fails, the status line arrives and reading the body fails, or a
  full response arrives. The second component of an \<open>http_env\<close> answer is the time
  the attempt took. The environment sees the URL, the attempt number, the instant
  of the call and the deadline of the request's context.
\<close>

datatype attempt_outcome =
    NewRequestError string
  | DoError string
  | ReadAllError int string
  | Response int string

type_synonym http_env = "string \<Rightarrow> int \<Rightarrow> int \<Rightarrow> int \<Rightarrow> attempt_outcome \<times> int"

text \<open>
  The effects of \<open>Fetch\<close>: the clock it advances and the requests and sleeps it
  performs, in order (newest first). \<open>time.Sleep d\<close> returns at once for \<open>d \<le> 0\<close> and
  after \<open>d\<close> otherwise; it takes no context.
\<close>

datatype fetch_event =
    EvRequest int int
  | EvSleep int int int

record fetch_io =
  io_now :: int
  io_log :: "fetch_event list"

definition do_request :: "int \<Rightarrow> int \<Rightarrow> fetch_io \<Rightarrow> fetch_io" where
  "do_request attempt elapsed io =
     \<lparr>io_now = io_now io + max 0 elapsed, io_log = EvRequest attempt (io_now io) # io_log io\<rparr>"

definition time_Sleep :: "int \<Rightarrow> int \<Rightarrow> fetch_io \<Rightarrow> fetch_io" where
  "time_Sleep attempt d io =
     \<lparr>io_now = io_now io + max 0 d,
      io_log = EvSleep attempt (io_now io) (io_now io + max 0 d) # io_log io\<rparr>"

text \<open>
  \<open>Fetch\<close> returns a pointer and an \<open>error\<close>: \<open>FetchResult option \<times> error option\<close>, with
  \<open>None\<close> for \<open>nil\<close>. The code after the loop is reached when the loop condition
  fails and by \<open>break\<close>.
\<close>

definition fetch_failed ::
  "string \<Rightarrow> int \<Rightarrow> int \<Rightarrow> error option \<Rightarrow> fetch_io
     \<Rightarrow> (FetchResult option \<times> error option) \<times> fetch_io" where
  "fetch_failed url start attempts lastError io =
     ((Some \<lparr>fr_URL = url, fr_StatusCode = 0, fr_Body = None,
              fr_Error = Some (ErrMaxRetries lastError),
              fr_Attempts = wrap64 (attempts - 1),
              fr_Duration = Since start (io_now io)\<rparr>, None), io)"

text \<open>
  One pass of the loop body: \<open>Retry\<close> is a \<open>continue\<close> (after the backoff sleep),
  \<open>Break\<close> the \<open>break\<close> on 403 and 404, \<open>Success\<close> the \<open>return\<close> inside the loop. Each
  carries the new \<open>lastError\<close> or the result.
\<close>

datatype pass = Retry error fetch_io | Break error fetch_io | Success FetchResult fetch_io

definition loop_pass ::
  "http_env \<Rightarrow> string \<Rightarrow> int \<Rightarrow> int \<Rightarrow> int \<Rightarrow> fetch_io \<Rightarrow> pass" where
  "loop_pass env url deadline start attempts io =
     (case env url attempts (io_now io) deadline of
        (NewRequestError e, elapsed) \<Rightarrow>
          Retry (ErrCreateRequest e) (time_Sleep attempts (backoffDuration attempts) io)
      | (DoError e, elapsed) \<Rightarrow>
          Retry (ErrHTTPRequest e)
            (time_Sleep attempts (backoffDuration attempts) (do_request attempts elapsed io))
      | (ReadAllError status e, elapsed) \<Rightarrow>
          Retry (ErrReadBody e)
            (time_Sleep attempts (backoffDuration attempts) (do_request attempts elapsed io))
      | (Response status body, elapsed) \<Rightarrow>
          (if status \<ge> 400 then
             (if status = 404 \<or> status = 403
              then Break (ErrHTTPStatus status) (do_request attempts elapsed io)
              else Retry (ErrHTTPStatus status)
                     (time_Sleep attempts (backoffDuration attempts)
                        (do_request attempts elapsed io)))
           else
             Success \<lparr>fr_URL = url, fr_StatusCode = status, fr_Body = Some body,
                      fr_Error = None, fr_Attempts = attempts,
                      fr_Duration = Since start (io_now (do_request attempts elapsed io))\<rparr>
               (do_request attempts elapsed io)))"

text \<open>
  The loop \<open>for attempts = 1; attempts <= f.maxRetries; attempts++\<close>. The counter
  wraps as an \<open>int\<close> does, so the loop is a partial function: \<open>None\<close> is a loop that
  never ends.
\<close>

partial_function (option) fetch_loop ::
  "Fetcher \<Rightarrow> http_env \<Rightarrow> string \<Rightarrow> int \<Rightarrow> int \<Rightarrow> int \<Rightarrow> error option \<Rightarrow> fetch_io
     \<Rightarrow> ((FetchResult option \<times> error option) \<times> fetch_io) option" where
  "fetch_loop f env url deadline start attempts lastError io =
     (if attempts \<le> maxRetries f then
        (case loop_pass env url deadline start attempts io of
           Retry e io' \<Rightarrow>
             fetch_loop f env url deadline start (wrap64 (attempts + 1)) (Some e) io'
         | Break e io' \<Rightarrow> Some (fetch_failed url start attempts (Some e) io')
         | Success result io' \<Rightarrow> Some ((Some result, None), io'))
      else Some (fetch_failed url start attempts lastError io))"

declare fetch_loop.simps [code]

definition Fetch ::
  "Fetcher \<Rightarrow> http_env \<Rightarrow> string \<Rightarrow> fetch_io
     \<Rightarrow> ((FetchResult option \<times> error option) \<times> fetch_io) option" where
  "Fetch f env url io =
     fetch_loop f env url (io_now io + timeout f) (io_now io) 1 None io"

section \<open>The work function of main\<close>

text \<open>
  The closure that \<open>main\<close> hands to the pool: fetch, then parse. The parser is a
  parameter; it is reached only with the body of a fetch that carries no error.
  A work function returns data and an error, or panics.
\<close>

datatype 'd pf_result =
    Return "'d option" "error option"
  | Panics string

definition main_processFunc ::
  "Fetcher \<Rightarrow> http_env \<Rightarrow> (string option \<Rightarrow> string \<Rightarrow> error + 'd) \<Rightarrow> fetch_io \<Rightarrow> string
     \<Rightarrow> 'd pf_result option" where
  "main_processFunc f env parse io url =
     (case Fetch f env url io of
        None \<Rightarrow> None
      | Some ((fetchResult, err), io') \<Rightarrow>
          (case err of
             Some e \<Rightarrow> Some (Return None (Some (ErrFetchFailed e)))
           | None \<Rightarrow>
               (case fetchResult of
                  None \<Rightarrow> Some (Panics ''invalid memory address or nil pointer dereference'')
                | Some fr \<Rightarrow>
                    (case fr_Error fr of
                       Some e \<Rightarrow> Some (Return None (Some (ErrHTTP e)))
                     | None \<Rightarrow>
                         (case parse (fr_Body fr) url of
                            Inl e \<Rightarrow> Some (Return None (Some (ErrParseFailed e)))
                          | Inr metadata \<Rightarrow> Some (Return (Some metadata) None))))))"

section \<open>Tasks, results and statistics (package worker, types.go)\<close>

datatype TaskStatus = TaskPending | TaskProcessing | TaskCompleted | TaskFailed | TaskSkipped

record Task =
  ID :: string
  URL :: string
  Attempts :: int
  Status :: TaskStatus
  Created :: int

record 'd Result =
  r_Task :: Task
  r_Data :: "'d option"
  r_Error :: "error option"
  r_Time :: int

text \<open>
  \<open>SuccessRate\<close> is a \<open>float64\<close>. The type \<open>'f\<close> stands for it, and the three
  \<open>float64\<close> operations the pool uses are parameters of the model.
\<close>

record 'f Stats =
  Total :: int
  Completed :: int
  Failed :: int
  Skipped :: int
  SuccessRate :: 'f
  AvgTime :: int
  StartTime :: int
  ETA :: int

record 'f float64_ops =
  f64_of_int :: "int \<Rightarrow> 'f"
  f64_div :: "'f \<Rightarrow> 'f \<Rightarrow> 'f"
  f64_mul :: "'f \<Rightarrow> 'f \<Rightarrow> 'f"

definition NewTask :: "string \<Rightarrow> string \<Rightarrow> int \<Rightarrow> Task" where
  "NewTask tid url now = \<lparr>ID = tid, URL = url, Attempts = 0, Status = TaskPending, Created = now\<rparr>"

section \<open>Recording a result (pool.go, updateStats)\<close>

text \<open>
  \<open>updateStats\<close> takes its \<open>Result\<close> by value and works on the shared \<open>*Stats\<close> with no
  lock. Its body is four groups of loads and stores; the worker pool below runs
  them as separate steps, \<open>updateStats\<close> runs them back to back.

  Line 210, the running average. A zero divisor is the run-time panic \<open>None\<close>.
\<close>

definition upd_avg :: "'f Stats \<Rightarrow> 'd Result \<Rightarrow> 'f Stats option" where
  "upd_avg st result =
     (let n = wrap64 (Completed st + Failed st);
          divisor = wrap64 (wrap64 (Completed st + Failed st) + 1)
      in if divisor = 0 then None
         else Some (st\<lparr>AvgTime := quo64 (wrap64 (wrap64 (AvgTime st * n) + r_Time result)) divisor\<rparr>))"

text \<open>Lines 212 to 218: \<open>Failed++\<close> or \<open>Completed++\<close>, a load and then a store.\<close>

definition upd_load :: "'f Stats \<Rightarrow> 'd Result \<Rightarrow> int" where
  "upd_load st result = (if r_Error result \<noteq> None then Failed st else Completed st)"

definition upd_store :: "'f Stats \<Rightarrow> 'd Result \<Rightarrow> int \<Rightarrow> 'f Stats \<times> 'd Result" where
  "upd_store st result loaded =
     (if r_Error result \<noteq> None
      then (st\<lparr>Failed := wrap64 (loaded + 1)\<rparr>,
            result\<lparr>r_Task := (r_Task result)\<lparr>Status := TaskFailed\<rparr>\<rparr>)
      else (st\<lparr>Completed := wrap64 (loaded + 1)\<rparr>,
            result\<lparr>r_Task := (r_Task result)\<lparr>Status := TaskCompleted\<rparr>\<rparr>))"

text \<open>
  Lines 220 to 229: success rate and ETA. \<open>now1\<close> is the clock read by
  \<open>time.Since\<close>, \<open>now2\<close> the one read by \<open>time.Now\<close>.
\<close>

definition upd_rates :: "'f float64_ops \<Rightarrow> 'f Stats \<Rightarrow> int \<Rightarrow> int \<Rightarrow> 'f Stats" where
  "upd_rates ops st now1 now2 =
     (let completed = wrap64 (Completed st + Failed st)
      in if completed > 0 then
           (let elapsed = Since (StartTime st) now1;
                avgTimePerTask = quo64 elapsed completed;
                remainingTasks = wrap64 (Total st - completed)
            in st\<lparr>SuccessRate :=
                     f64_mul ops (f64_div ops (f64_of_int ops (Completed st)) (f64_of_int ops completed))
                       (f64_of_int ops 100),
                   ETA := now2 + wrap64 (avgTimePerTask * remainingTasks)\<rparr>)
         else st)"

text \<open>
  The whole call: the new statistics and the callee's copy of the result as it
  is when the call returns. The caller's \<open>Result\<close> is not touched.
\<close>

definition updateStats ::
  "'f float64_ops \<Rightarrow> 'f Stats \<Rightarrow> 'd Result \<Rightarrow> int \<Rightarrow> int \<Rightarrow> ('f Stats \<times> 'd Result) option" where
  "updateStats ops st result now1 now2 =
     (case upd_avg st result of
        None \<Rightarrow> None
      | Some st1 \<Rightarrow>
          (let (st2, copy) = upd_store st1 result (upd_load st1 result)
           in Some (upd_rates ops st2 now1 now2, copy)))"

section \<open>The worker pool (pool.go)\<close>

text \<open>
  The pool is a concurrent program: one generator goroutine, \<open>workers\<close> worker
  goroutines, the caller of \<open>Stop\<close> and the reader of the result channel. Its model
  is a state and a step function: a scheduler picks which goroutine performs its
  next operation, and \<open>None\<close> says that this goroutine cannot move (it is blocked or
  gone). Each goroutine has a program counter that holds its local variables.

  Channel operations, \<open>WaitGroup\<close> operations and each of the four groups of
  \<open>updateStats\<close> are single steps. Printing (the \<open>verbose\<close> branches and the monitor
  goroutine, which only read) is left out.
\<close>

datatype gen_pc =
    G_Loop "string list"
  | G_Send Task "string list"
  | G_Return
  | G_Exited

datatype 'd worker_pc =
    W_Select
  | W_RateWait Task
  | W_Call Task int
  | W_Update1 "'d Result"
  | W_Update2 "'d Result" "'d Result"
  | W_Update3 "'d Result" "'d Result" int
  | W_Update4 "'d Result" "'d Result"
  | W_Send "'d Result"
  | W_Exited

datatype stop_pc = S_WaitGen | S_WaitWorkers | S_Close | S_Returned

record ('d, 'f) WorkerPool =
  workers :: int
  rateLimit :: int
  taskQueue :: "Task list"
  taskQueue_closed :: bool
  resultChan :: "'d Result list"
  resultChan_closed :: bool
  wg :: int
  taskGenWg :: int
  stats :: "'f Stats"
  ctx_done :: bool
  wp_verbose :: bool
  gen :: gen_pc
  ws :: "'d worker_pc list"
  stop :: stop_pc
  received :: "'d Result list"
  clock :: int
  panicked :: bool

text \<open>Both channels are made with capacity 1000.\<close>

definition chan_cap :: nat where
  "chan_cap = 1000"

text \<open>
  \<open>NewPool\<close> at instant \<open>now\<close>. No goroutine runs yet: the generator counts as gone
  and \<open>Stop\<close> has its first operation ahead. The context is not cancelled, and no
  operation of the package calls the stored \<open>cancel\<close>.
\<close>

definition NewPool :: "'f float64_ops \<Rightarrow> int \<Rightarrow> int \<Rightarrow> bool \<Rightarrow> int \<Rightarrow> ('d, 'f) WorkerPool" where
  "NewPool ops nworkers limit verb now =
     \<lparr>workers = nworkers, rateLimit = limit,
      taskQueue = [], taskQueue_closed = False,
      resultChan = [], resultChan_closed = False,
      wg = 0, taskGenWg = 0,
      stats = \<lparr>Total = 0, Completed = 0, Failed = 0, Skipped = 0,
               SuccessRate = f64_of_int ops 0, AvgTime = 0, StartTime = now, ETA = 0\<rparr>,
      ctx_done = False, wp_verbose = verb,
      gen = G_Exited, ws = [], stop = S_WaitGen, received = [],
      clock = now, panicked = False\<rparr>"

text \<open>
  \<open>Process\<close>: set \<open>Total\<close>, add one to \<open>wg\<close> per worker and start it, add one to
  \<open>taskGenWg\<close> and start the generator.
\<close>

definition Process :: "('d, 'f) WorkerPool \<Rightarrow> string list \<Rightarrow> ('d, 'f) WorkerPool" where
  "Process wp urls =
     wp\<lparr>stats := (stats wp)\<lparr>Total := int (length urls)\<rparr>,
        wg := wg wp + int (nat (workers wp)),
        ws := ws wp @ replicate (nat (workers wp)) W_Select,
        taskGenWg := taskGenWg wp + 1,
        gen := G_Loop urls\<rparr>"

text \<open>
  \<open>generateTasks\<close>. \<open>gen_step\<close> is the next operation on the normal path (build the
  task, the send case of the \<open>select\<close>, \<open>close\<close>, the deferred \<open>taskGenWg.Done\<close>);
  \<open>gen_ctx_step\<close> is the \<open>ctx.Done\<close> case of the \<open>select\<close>.
\<close>

definition gen_step :: "('d, 'f) WorkerPool \<Rightarrow> ('d, 'f) WorkerPool option" where
  "gen_step s =
     (case gen s of
        G_Loop [] \<Rightarrow>
          if taskQueue_closed s then Some (s\<lparr>panicked := True\<rparr>)
          else Some (s\<lparr>taskQueue_closed := True, gen := G_Return\<rparr>)
      | G_Loop (url # rest) \<Rightarrow>
          Some (s\<lparr>gen := G_Send (NewTask (extractIDFromURL url) url (clock s)) rest\<rparr>)
      | G_Send task rest \<Rightarrow>
          if taskQueue_closed s then Some (s\<lparr>panicked := True\<rparr>)
          else if length (taskQueue s) < chan_cap
          then Some (s\<lparr>taskQueue := taskQueue s @ [task], gen := G_Loop rest\<rparr>)
          else None
      | G_Return \<Rightarrow>
          if taskGenWg s - 1 < 0 then Some (s\<lparr>panicked := True\<rparr>)
          else Some (s\<lparr>taskGenWg := taskGenWg s - 1, gen := G_Exited\<rparr>)
      | G_Exited \<Rightarrow> None)"

definition gen_ctx_step :: "('d, 'f) WorkerPool \<Rightarrow> ('d, 'f) WorkerPool option" where
  "gen_ctx_step s =
     (case gen s of
        G_Send task rest \<Rightarrow> if ctx_done s then Some (s\<lparr>gen := G_Return\<rparr>) else None
      | _ \<Rightarrow> None)"

text \<open>
  \<open>worker\<close>. Returning runs the deferred \<open>wg.Done\<close>. The work function is called
  under \<open>recover\<close>: a panic becomes an error and leaves \<open>data\<close> nil.
  \<open>rateLimiter.Wait\<close> (package golang.org/x/time/rate, burst \<open>rateLimit\<close>) fails when
  the burst is below the one token asked for or the context is cancelled, and
  grants the token otherwise.
\<close>

definition worker_return :: "('d, 'f) WorkerPool \<Rightarrow> nat \<Rightarrow> ('d, 'f) WorkerPool" where
  "worker_return s i =
     (if wg s - 1 < 0 then s\<lparr>panicked := True\<rparr>
      else s\<lparr>ws := (ws s)[i := W_Exited], wg := wg s - 1\<rparr>)"

definition guarded_call :: "(string \<Rightarrow> 'd pf_result) \<Rightarrow> string \<Rightarrow> 'd option \<times> error option" where
  "guarded_call processFunc url =
     (case processFunc url of
        Return data err \<Rightarrow> (data, err)
      | Panics r \<Rightarrow> (None, Some (ErrPanic r)))"

definition worker_step ::
  "'f float64_ops \<Rightarrow> (string \<Rightarrow> 'd pf_result) \<Rightarrow> nat \<Rightarrow> ('d, 'f) WorkerPool
     \<Rightarrow> ('d, 'f) WorkerPool option" where
  "worker_step ops processFunc i s =
     (if i \<ge> length (ws s) then None
      else case ws s ! i of
        W_Select \<Rightarrow>
          (case taskQueue s of
             task # rest \<Rightarrow> Some (s\<lparr>taskQueue := rest, ws := (ws s)[i := W_RateWait task]\<rparr>)
           | [] \<Rightarrow> if taskQueue_closed s then Some (worker_return s i) else None)
      | W_RateWait task \<Rightarrow>
          if rateLimit s < 1 \<or> ctx_done s then Some (worker_return s i)
          else Some (s\<lparr>ws := (ws s)[i := W_Call (task\<lparr>Status := TaskProcessing\<rparr>) (clock s)]\<rparr>)
      | W_Call task start \<Rightarrow>
          (let (data, err) = guarded_call processFunc (URL task);
               result = \<lparr>r_Task = task, r_Data = data, r_Error = err,
                         r_Time = Since start (clock s)\<rparr>
           in Some (s\<lparr>ws := (ws s)[i := W_Update1 result]\<rparr>))
      | W_Update1 result \<Rightarrow>
          (case upd_avg (stats s) result of
             None \<Rightarrow> Some (s\<lparr>panicked := True\<rparr>)
           | Some st \<Rightarrow> Some (s\<lparr>stats := st, ws := (ws s)[i := W_Update2 result result]\<rparr>))
      | W_Update2 result copy \<Rightarrow>
          Some (s\<lparr>ws := (ws s)[i := W_Update3 result copy (upd_load (stats s) copy)]\<rparr>)
      | W_Update3 result copy loaded \<Rightarrow>
          (let (st, copy') = upd_store (stats s) copy loaded
           in Some (s\<lparr>stats := st, ws := (ws s)[i := W_Update4 result copy']\<rparr>))
      | W_Update4 result copy \<Rightarrow>
          Some (s\<lparr>stats := upd_rates ops (stats s) (clock s) (clock s),
                  ws := (ws s)[i := W_Send result]\<rparr>)
      | W_Send result \<Rightarrow>
          if resultChan_closed s then Some (s\<lparr>panicked := True\<rparr>)
          else if length (resultChan s) < chan_cap
          then Some (s\<lparr>resultChan := resultChan s @ [result], ws := (ws s)[i := W_Select]\<rparr>)
          else None
      | W_Exited \<Rightarrow> None)"

definition worker_ctx_step :: "nat \<Rightarrow> ('d, 'f) WorkerPool \<Rightarrow> ('d, 'f) WorkerPool option" where
  "worker_ctx_step i s =
     (if i \<ge> length (ws s) then None
      else case ws s ! i of
        W_Select \<Rightarrow> if ctx_done s then Some (worker_return s i) else None
      | W_Send result \<Rightarrow> if ctx_done s then Some (worker_return s i) else None
      | _ \<Rightarrow> None)"

text \<open>\<open>Stop\<close>: \<open>taskGenWg.Wait\<close>, \<open>wg.Wait\<close>, \<open>close(resultChan)\<close>.\<close>

definition stop_step :: "('d, 'f) WorkerPool \<Rightarrow> ('d, 'f) WorkerPool option" where
  "stop_step s =
     (case stop s of
        S_WaitGen \<Rightarrow> if taskGenWg s = 0 then Some (s\<lparr>stop := S_WaitWorkers\<rparr>) else None
      | S_WaitWorkers \<Rightarrow> if wg s = 0 then Some (s\<lparr>stop := S_Close\<rparr>) else None
      | S_Close \<Rightarrow>
          if resultChan_closed s then Some (s\<lparr>panicked := True\<rparr>)
          else Some (s\<lparr>resultChan_closed := True, stop := S_Returned\<rparr>)
      | S_Returned \<Rightarrow> None)"

text \<open>The reader of the result channel (\<open>SaveBatch\<close> ranging over it) takes the head.\<close>

definition consume_step :: "('d, 'f) WorkerPool \<Rightarrow> ('d, 'f) WorkerPool option" where
  "consume_step s =
     (case resultChan s of
        r # rest \<Rightarrow> Some (s\<lparr>resultChan := rest, received := received s @ [r]\<rparr>)
      | [] \<Rightarrow> None)"

datatype action = Gen | GenCtx | Work nat | WorkCtx nat | StopStep | Consume | Tick int

text \<open>One step of the program; a panic ends it.\<close>

definition step ::
  "'f float64_ops \<Rightarrow> (string \<Rightarrow> 'd pf_result) \<Rightarrow> action \<Rightarrow> ('d, 'f) WorkerPool
     \<Rightarrow> ('d, 'f) WorkerPool option" where
  "step ops processFunc a s =
     (if panicked s then None
      else case a of
        Gen \<Rightarrow> gen_step s
      | GenCtx \<Rightarrow> gen_ctx_step s
      | Work i \<Rightarrow> worker_step ops processFunc i s
      | WorkCtx i \<Rightarrow> worker_ctx_step i s
      | StopStep \<Rightarrow> stop_step s
      | Consume \<Rightarrow> consume_step s
      | Tick d \<Rightarrow> if d \<ge> 0 then Some (s\<lparr>clock := clock s + d\<rparr>) else None)"

fun run ::
  "'f float64_ops \<Rightarrow> (string \<Rightarrow> 'd pf_result) \<Rightarrow> action list \<Rightarrow> ('d, 'f) WorkerPool
     \<Rightarrow> ('d, 'f) WorkerPool option" where
  "run ops processFunc [] s = Some s"
| "run ops processFunc (a # sched) s =
     (case step ops processFunc a s of
        None \<Rightarrow> None
      | Some s' \<Rightarrow> run ops processFunc sched s')"

text \<open>
  A run has finished when \<open>Stop\<close> has returned and the reader has taken every
  result that was sent.
\<close>

definition finished :: "('d, 'f) WorkerPool \<Rightarrow> bool" where
  "finished s = (stop s = S_Returned \<and> resultChan s = [])"

text \<open>
  For concrete evaluations the \<open>float64\<close> operations are read as the constructors
  of the terms they build.
\<close>

datatype f64_term = F64_of_int int | F64_div f64_term f64_term | F64_mul f64_term f64_term

definition term_ops :: "f64_term float64_ops" where
  "term_ops = \<lparr>f64_of_int = F64_of_int, f64_div = F64_div, f64_mul = F64_mul\<rparr>"

section \<open>Predicates on the effects of a fetch\<close>

text \<open>
  What the specification asks of a backoff sleep: if the deadline of the
  operation falls inside the time the sleep was due to take, the sleep ends at
  the deadline.
\<close>

definition sleep_aborts_at_deadline :: "int \<Rightarrow> fetch_event \<Rightarrow> bool" where
  "sleep_aborts_at_deadline deadline ev =
     (case ev of
        EvSleep attempt t0 t1 \<Rightarrow>
          (if t0 \<le> deadline \<and> deadline < t0 + backoffDuration attempt then t1 = deadline else True)
      | EvRequest attempt t0 \<Rightarrow> True)"

text \<open>What the code does: a sleep lasts its whole backoff (none when that is not positive).\<close>

definition sleep_runs_in_full :: "fetch_event \<Rightarrow> bool" where
  "sleep_runs_in_full ev =
     (case ev of
        EvSleep attempt t0 t1 \<Rightarrow> t1 = t0 + max 0 (backoffDuration attempt)
      | EvRequest attempt t0 \<Rightarrow> True)"

definition is_request :: "fetch_event \<Rightarrow> bool" where
  "is_request ev = (case ev of EvRequest attempt t0 \<Rightarrow> True | EvSleep attempt t0 t1 \<Rightarrow> False)"

section \<open>Concrete inputs\<close>

text \<open>
  Two servers: one that refuses every connection (and, once the deadline of the
  request's context has passed, lets \<open>client.Do\<close> fail at once), and one that answers
  every request with 404 after 10 ms.
\<close>

definition env_refused :: http_env where
  "env_refused url attempt now deadline =
     (if now < deadline then (DoError ''connection refused'', 0)
      else (DoError ''context deadline exceeded'', 0))"

definition env_404 :: http_env where
  "env_404 url attempt now deadline = (Response 404 ''Not Found'', 10 * Millisecond)"

definition io0 :: fetch_io where
  "io0 = \<lparr>io_now = 0, io_log = []\<rparr>"

definition no_parse :: "string option \<Rightarrow> string \<Rightarrow> error + string" where
  "no_parse body url = Inl (ErrOther ''no parser'')"

definition stats0 :: "f64_term Stats" where
  "stats0 = \<lparr>Total = 10, Completed = 2, Failed = 1, Skipped = 0, SuccessRate = F64_of_int 0,
             AvgTime = 100, StartTime = 0, ETA = 0\<rparr>"

definition stats_zero :: "f64_term Stats" where
  "stats_zero = \<lparr>Total = 10, Completed = 0, Failed = 0, Skipped = 0, SuccessRate = F64_of_int 0,
                 AvgTime = 0, StartTime = 0, ETA = 0\<rparr>"

definition result0 :: "string Result" where
  "result0 = \<lparr>r_Task = (NewTask ''abc-123'' ''https://www.gtft.cn/article/id/abc-123'' 0)
                         \<lparr>Status := TaskProcessing\<rparr>,
              r_Data = Some ''metadata'', r_Error = None, r_Time = 500\<rparr>"

section \<open>Properties of the identifier extraction\<close>

lemma last_index_from_none:
  "last_index_from n s sub = - 1 \<longleftrightarrow> (\<forall>i \<le> n. take (length sub) (drop i s) \<noteq> sub)"
proof (induction n)
  case 0
  then show ?case by simp
next
  case (Suc n)
  then show ?case by (auto simp: le_Suc_eq)
qed

lemma last_index_from_some:
  "last_index_from n s sub \<noteq> - 1 \<Longrightarrow>
     \<exists>j \<le> n. last_index_from n s sub = int j \<and> take (length sub) (drop j s) = sub
        \<and> (\<forall>i. j < i \<and> i \<le> n \<longrightarrow> take (length sub) (drop i s) \<noteq> sub)"
proof (induction n)
  case 0
  then show ?case by (auto split: if_splits)
next
  case (Suc n)
  show ?case
  proof (cases "take (length sub) (drop (Suc n) s) = sub")
    case True
    then show ?thesis by auto
  next
    case False
    with Suc.prems have "last_index_from n s sub \<noteq> - 1" by simp
    from Suc.IH [OF this] obtain j where j: "j \<le> n" "last_index_from n s sub = int j"
      "take (length sub) (drop j s) = sub"
      "\<forall>i. j < i \<and> i \<le> n \<longrightarrow> take (length sub) (drop i s) \<noteq> sub" by blast
    show ?thesis
      apply (rule exI [of _ j])
      using j False by (auto simp: le_Suc_eq)
  qed
qed

lemma occ_in_range:
  assumes "take (length sub) (drop i s) = sub" "sub \<noteq> []"
  shows "i + length sub \<le> length s"
proof -
  from assms(1) have "length (take (length sub) (drop i s)) = length sub" by simp
  then have "min (length sub) (length s - i) = length sub" by simp
  moreover have "length sub > 0" using assms(2) by simp
  ultimately show ?thesis by linarith
qed

lemma LastIndex_none:
  assumes "sub \<noteq> []"
  shows "LastIndex s sub = - 1 \<longleftrightarrow> (\<forall>i. take (length sub) (drop i s) \<noteq> sub)"
proof (cases "length sub > length s")
  case True
  have "take (length sub) (drop i s) \<noteq> sub" for i
  proof
    assume "take (length sub) (drop i s) = sub"
    from occ_in_range [OF this assms] True show False by simp
  qed
  with True show ?thesis by (simp add: LastIndex_def)
next
  case False
  have "(\<forall>i \<le> length s - length sub. take (length sub) (drop i s) \<noteq> sub)
        \<longleftrightarrow> (\<forall>i. take (length sub) (drop i s) \<noteq> sub)" (is "?L \<longleftrightarrow> ?R")
  proof
    assume L: ?L
    show ?R
    proof (intro allI notI)
      fix i assume occ: "take (length sub) (drop i s) = sub"
      from occ_in_range [OF occ assms] have "i \<le> length s - length sub" by simp
      with L occ show False by blast
    qed
  next
    assume ?R then show ?L by blast
  qed
  with False show ?thesis by (simp add: LastIndex_def last_index_from_none)
qed

lemma LastIndex_some:
  assumes "LastIndex s sub \<noteq> - 1" "sub \<noteq> []"
  shows "\<exists>j. LastIndex s sub = int j \<and> take (length sub) (drop j s) = sub
        \<and> (\<forall>i > j. take (length sub) (drop i s) \<noteq> sub)"
proof -
  from assms have le: "length sub \<le> length s" and
    ne: "last_index_from (length s - length sub) s sub \<noteq> - 1"
    by (auto simp: LastIndex_def split: if_splits)
  from last_index_from_some [OF ne] obtain j where j: "j \<le> length s - length sub"
      "last_index_from (length s - length sub) s sub = int j"
      "take (length sub) (drop j s) = sub"
      "\<forall>i. j < i \<and> i \<le> length s - length sub \<longrightarrow> take (length sub) (drop i s) \<noteq> sub" by blast
  have "\<forall>i > j. take (length sub) (drop i s) \<noteq> sub"
  proof (intro allI impI)
    fix i assume "j < i"
    show "take (length sub) (drop i s) \<noteq> sub"
    proof
      assume occ: "take (length sub) (drop i s) = sub"
      from occ_in_range [OF occ assms(2)] have "i \<le> length s - length sub" by simp
      with j(4) \<open>j < i\<close> occ show False by blast
    qed
  qed
  with j le show ?thesis by (auto simp: LastIndex_def)
qed

lemma LastIndex_unique:
  assumes "take (length sub) (drop j s) = sub"
    and "\<forall>i > j. take (length sub) (drop i s) \<noteq> sub" and ne: "sub \<noteq> []"
  shows "LastIndex s sub = int j"
proof -
  from assms(1) have "LastIndex s sub \<noteq> - 1" using LastIndex_none [OF ne] by blast
  from LastIndex_some [OF this ne] obtain k where k: "LastIndex s sub = int k"
    "take (length sub) (drop k s) = sub" "\<forall>i > k. take (length sub) (drop i s) \<noteq> sub" by blast
  have "k = j" using assms k by (meson linorder_neqE_nat)
  with k show ?thesis by simp
qed

lemma Contains_iff:
  "sub \<noteq> [] \<Longrightarrow> Contains s sub \<longleftrightarrow> (\<exists>i. take (length sub) (drop i s) = sub)"
  by (simp add: Contains_def LastIndex_none)

lemma not_Contains_drop: "sub \<noteq> [] \<Longrightarrow> \<not> Contains s sub \<Longrightarrow> \<not> Contains (drop k s) sub"
  by (simp add: Contains_iff)

lemma drop_after_last_no_occ:
  assumes "LastIndex s sub = int j" "sub \<noteq> []" "LastIndex s sub \<noteq> - 1"
  shows "\<not> Contains (drop (j + length sub) s) sub"
proof -
  from LastIndex_some [OF assms(3) assms(2)] assms(1)
  have later: "\<forall>i > j. take (length sub) (drop i s) \<noteq> sub" by auto
  show ?thesis
  proof
    assume "Contains (drop (j + length sub) s) sub"
    then obtain i where "take (length sub) (drop (i + (j + length sub)) s) = sub"
      using assms(2) by (auto simp: Contains_iff)
    moreover have "i + (j + length sub) > j" using assms(2) by simp
    ultimately show False using later by blast
  qed
qed

lemma extract_id:
  assumes "LastIndex url ''/article/id/'' = int j" 
  shows "extractIDFromURL url = drop (j + 12) url"
  using assms by (simp add: extractIDFromURL_def Let_def nat_add_distrib)

lemma extract_doi:
  assumes "\<not> Contains url ''/article/id/''" "LastIndex url ''/article/doi/'' = int j" 
  shows "extractIDFromURL url = drop (j + 13) url"
  using assms by (simp add: extractIDFromURL_def Let_def nat_add_distrib Contains_def)

lemma extract_neither:
  assumes "\<not> Contains url ''/article/id/''" "\<not> Contains url ''/article/doi/''"
  shows "extractIDFromURL url = url"
  using assms by (simp add: extractIDFromURL_def Let_def Contains_def)

lemma len_id: "length ''/article/id/'' = 12"
  by simp

lemma len_doi: "length ''/article/doi/'' = 13"
  by simp

lemma after_last_id:
  assumes "LastIndex url ''/article/id/'' = int j"
  shows "\<not> Contains (drop (j + 12) url) ''/article/id/''"
proof -
  have ne: "LastIndex url ''/article/id/'' \<noteq> - 1" using assms by simp
  have "\<not> Contains (drop (j + length ''/article/id/'') url) ''/article/id/''"
    by (rule drop_after_last_no_occ [OF assms _ ne]) simp
  then show ?thesis unfolding len_id .
qed

lemma after_last_doi:
  assumes "LastIndex url ''/article/doi/'' = int j"
  shows "\<not> Contains (drop (j + 13) url) ''/article/doi/''"
proof -
  have ne: "LastIndex url ''/article/doi/'' \<noteq> - 1" using assms by simp
  have "\<not> Contains (drop (j + length ''/article/doi/'') url) ''/article/doi/''"
    by (rule drop_after_last_no_occ [OF assms _ ne]) simp
  then show ?thesis unfolding len_doi .
qed

lemma LastIndex_nat:
  assumes "LastIndex s sub \<noteq> - 1" "sub \<noteq> []"
  shows "\<exists>j. LastIndex s sub = int j"
  using LastIndex_some [OF assms] by blast

lemma extract_no_id: "\<not> Contains (extractIDFromURL url) ''/article/id/''"
proof (cases "Contains url ''/article/id/''")
  case True
  then have ne: "LastIndex url ''/article/id/'' \<noteq> - 1" by (simp add: Contains_def)
  from LastIndex_nat [OF ne] obtain j where j: "LastIndex url ''/article/id/'' = int j" by auto
  show ?thesis unfolding extract_id [OF j] by (rule after_last_id [OF j])
next
  case False
  show ?thesis
  proof (cases "Contains url ''/article/doi/''")
    case True
    then have ne: "LastIndex url ''/article/doi/'' \<noteq> - 1" by (simp add: Contains_def)
    from LastIndex_nat [OF ne] obtain j where j: "LastIndex url ''/article/doi/'' = int j" by auto
    show ?thesis unfolding extract_doi [OF False j] by (rule not_Contains_drop [OF _ False]) simp
  next
    case F2: False
    show ?thesis unfolding extract_neither [OF False F2] by (rule False)
  qed
qed

lemma extract_idem:
  assumes "\<not> Contains (extractIDFromURL url) ''/article/doi/''"
  shows "extractIDFromURL (extractIDFromURL url) = extractIDFromURL url"
  by (rule extract_neither [OF extract_no_id assms])

lemma extract_no_doi:
  assumes "\<not> Contains url ''/article/id/''"
  shows "\<not> Contains (extractIDFromURL url) ''/article/doi/''"
proof (cases "Contains url ''/article/doi/''")
  case True
  then have ne: "LastIndex url ''/article/doi/'' \<noteq> - 1" by (simp add: Contains_def)
  from LastIndex_nat [OF ne] obtain j where j: "LastIndex url ''/article/doi/'' = int j" by auto
  show ?thesis unfolding extract_doi [OF assms j] by (rule after_last_doi [OF j])
next
  case False
  show ?thesis unfolding extract_neither [OF assms False] by (rule False)
qed

lemma last_occ_split:
  assumes no: "\<not> Contains (sub' @ t) (c # sub')"
  shows "LastIndex (p @ (c # sub') @ t) (c # sub') = int (length p)"
proof (rule LastIndex_unique)
  show "take (length (c # sub')) (drop (length p) (p @ (c # sub') @ t)) = c # sub'" by simp
  show "c # sub' \<noteq> []" by simp
  have none: "take (length (c # sub')) (drop k (sub' @ t)) \<noteq> c # sub'" for k
    using no Contains_iff [of "c # sub'" "sub' @ t"] by blast
  show "\<forall>i>length p. take (length (c # sub')) (drop i (p @ (c # sub') @ t)) \<noteq> c # sub'"
  proof (intro allI impI)
    fix i assume "length p < i"
    define k where "k = i - Suc (length p)"
    have k: "i = length p + Suc k" using \<open>length p < i\<close> by (simp add: k_def)
    have "drop (length p + Suc k) (p @ (c # sub') @ t) = drop k (sub' @ t)"
      by (simp add: drop_append)
    then have eq: "drop i (p @ (c # sub') @ t) = drop k (sub' @ t)"
      using k by simp
    show "take (length (c # sub')) (drop i (p @ (c # sub') @ t)) \<noteq> c # sub'"
      unfolding eq by (rule none)
  qed
qed

lemma extract_id_token:
  assumes "\<not> Contains (''article/id/'' @ tok) ''/article/id/''"
  shows "extractIDFromURL (p @ ''/article/id/'' @ tok) = tok"
proof -
  have "LastIndex (p @ ''/article/id/'' @ tok) ''/article/id/'' = int (length p)"
    by (rule last_occ_split [OF assms])
  from extract_id [OF this] show ?thesis by simp
qed

lemma extract_doi_token:
  assumes "\<not> Contains (p @ ''/article/doi/'' @ tok) ''/article/id/''"
    and "\<not> Contains (''article/doi/'' @ tok) ''/article/doi/''"
  shows "extractIDFromURL (p @ ''/article/doi/'' @ tok) = tok"
proof -
  have "LastIndex (p @ ''/article/doi/'' @ tok) ''/article/doi/'' = int (length p)"
    by (rule last_occ_split [OF assms(2)])
  from extract_doi [OF assms(1) this] show ?thesis by simp
qed


text \<open>
  Claim C9, as amended. The identifier of a URL is the text after the last
  \<open>/article/id/\<close>; if the URL has none, the text after the last \<open>/article/doi/\<close>; if
  it has neither, the URL itself. (In the first two conjuncts \<open>tok\<close> is the text after
  the last instance: the pattern does not start again inside its own tail followed
  by \<open>tok\<close>.) Extraction is a function, so equal URLs have equal identifiers. It is
  idempotent on every URL whose identifier does not contain \<open>/article/doi/\<close>, and
  so on every URL without \<open>/article/id/\<close>. The two examples of the specification
  evaluate as stated.
\<close>

theorem extractIDFromURL_spec:
  "(\<not> Contains (''article/id/'' @ tok1) ''/article/id/''
      \<longrightarrow> extractIDFromURL (p1 @ ''/article/id/'' @ tok1) = tok1)
   \<and> (\<not> Contains (p2 @ ''/article/doi/'' @ tok2) ''/article/id/''
        \<and> \<not> Contains (''article/doi/'' @ tok2) ''/article/doi/''
      \<longrightarrow> extractIDFromURL (p2 @ ''/article/doi/'' @ tok2) = tok2)
   \<and> (\<not> Contains u3 ''/article/id/'' \<and> \<not> Contains u3 ''/article/doi/''
      \<longrightarrow> extractIDFromURL u3 = u3)
   \<and> (\<not> Contains (extractIDFromURL u4) ''/article/doi/''
      \<longrightarrow> extractIDFromURL (extractIDFromURL u4) = extractIDFromURL u4)
   \<and> (\<not> Contains u5 ''/article/id/''
      \<longrightarrow> extractIDFromURL (extractIDFromURL u5) = extractIDFromURL u5)
   \<and> (u6 = u7 \<longrightarrow> extractIDFromURL u6 = extractIDFromURL u7)
   \<and> extractIDFromURL ''https://www.gtft.cn/article/id/abc-123'' = ''abc-123''
   \<and> extractIDFromURL ''https://www.gtft.cn/cn/article/doi/10.77/x.1'' = ''10.77/x.1''"
proof (intro conjI impI)
  assume "\<not> Contains (''article/id/'' @ tok1) ''/article/id/''"
  then show "extractIDFromURL (p1 @ ''/article/id/'' @ tok1) = tok1"
    by (rule extract_id_token)
next
  assume a: "\<not> Contains (p2 @ ''/article/doi/'' @ tok2) ''/article/id/''
        \<and> \<not> Contains (''article/doi/'' @ tok2) ''/article/doi/''"
  then have n1: "\<not> Contains (p2 @ ''/article/doi/'' @ tok2) ''/article/id/''"
    and n2: "\<not> Contains (''article/doi/'' @ tok2) ''/article/doi/''" by blast+
  show "extractIDFromURL (p2 @ ''/article/doi/'' @ tok2) = tok2"
    by (rule extract_doi_token [OF n1 n2])
next
  assume "\<not> Contains u3 ''/article/id/'' \<and> \<not> Contains u3 ''/article/doi/''"
  then show "extractIDFromURL u3 = u3" by (simp add: extract_neither)
next
  assume "\<not> Contains (extractIDFromURL u4) ''/article/doi/''"
  then show "extractIDFromURL (extractIDFromURL u4) = extractIDFromURL u4"
    by (rule extract_idem)
next
  assume "\<not> Contains u5 ''/article/id/''"
  then show "extractIDFromURL (extractIDFromURL u5) = extractIDFromURL u5"
    using extract_no_doi extract_idem by blast
next
  assume "u6 = u7"
  then show "extractIDFromURL u6 = extractIDFromURL u7" by simp
next
  show "extractIDFromURL ''https://www.gtft.cn/article/id/abc-123'' = ''abc-123''"
    by (simp add: extractIDFromURL_def LastIndex_def)
next
  show "extractIDFromURL ''https://www.gtft.cn/cn/article/doi/10.77/x.1'' = ''10.77/x.1''"
    by (simp add: extractIDFromURL_def LastIndex_def)
qed

theorem extractIDFromURL_spec_witness:
  "\<not> Contains (''article/id/'' @ ''abc-123'') ''/article/id/''
   \<and> extractIDFromURL (''https://www.gtft.cn'' @ ''/article/id/'' @ ''abc-123'') = ''abc-123''
   \<and> \<not> Contains (''https://www.gtft.cn/cn'' @ ''/article/doi/'' @ ''10.77/x.1'') ''/article/id/''
   \<and> \<not> Contains (''article/doi/'' @ ''10.77/x.1'') ''/article/doi/''
   \<and> extractIDFromURL (''https://www.gtft.cn/cn'' @ ''/article/doi/'' @ ''10.77/x.1'') = ''10.77/x.1''
   \<and> \<not> Contains ''https://www.gtft.cn/'' ''/article/id/''
   \<and> \<not> Contains ''https://www.gtft.cn/'' ''/article/doi/''
   \<and> extractIDFromURL ''https://www.gtft.cn/'' = ''https://www.gtft.cn/''
   \<and> \<not> Contains (extractIDFromURL ''https://www.gtft.cn/article/id/abc-123'') ''/article/doi/''
   \<and> extractIDFromURL (extractIDFromURL ''https://www.gtft.cn/article/id/abc-123'')
       = extractIDFromURL ''https://www.gtft.cn/article/id/abc-123''
   \<and> \<not> Contains ''https://www.gtft.cn/cn/article/doi/10.77/x.1'' ''/article/id/''
   \<and> extractIDFromURL (extractIDFromURL ''https://www.gtft.cn/cn/article/doi/10.77/x.1'')
       = extractIDFromURL ''https://www.gtft.cn/cn/article/doi/10.77/x.1''"
proof -
  have h1: "\<not> Contains (''article/id/'' @ ''abc-123'') ''/article/id/''"
    by (simp add: Contains_def LastIndex_def)
  have h2: "\<not> Contains (''https://www.gtft.cn/cn'' @ ''/article/doi/'' @ ''10.77/x.1'') ''/article/id/''"
    by (simp add: Contains_def LastIndex_def)
  have h3: "\<not> Contains (''article/doi/'' @ ''10.77/x.1'') ''/article/doi/''"
    by (simp add: Contains_def LastIndex_def)
  have h4: "\<not> Contains ''https://www.gtft.cn/'' ''/article/id/''"
    by (simp add: Contains_def LastIndex_def)
  have h5: "\<not> Contains ''https://www.gtft.cn/'' ''/article/doi/''"
    by (simp add: Contains_def LastIndex_def)
  have h6: "\<not> Contains (extractIDFromURL ''https://www.gtft.cn/article/id/abc-123'') ''/article/doi/''"
    by (simp add: Contains_def LastIndex_def extractIDFromURL_def)
  have h7: "\<not> Contains ''https://www.gtft.cn/cn/article/doi/10.77/x.1'' ''/article/id/''"
    by (simp add: Contains_def LastIndex_def)
  note t = extractIDFromURL_spec [of "''abc-123''" "''https://www.gtft.cn''"
      "''https://www.gtft.cn/cn''" "''10.77/x.1''" "''https://www.gtft.cn/''"
      "''https://www.gtft.cn/article/id/abc-123''"
      "''https://www.gtft.cn/cn/article/doi/10.77/x.1''" "''x''" "''x''"]
  show ?thesis
    using t h1 h2 h3 h4 h5 h6 h7 by blast
qed

text \<open>
  Claim C9 as stated asks for idempotence on every URL. The identifier of this
  URL is \<open>a/article/doi/b\<close>, and the identifier of that is \<open>b\<close>.
\<close>

theorem extractIDFromURL_not_idempotent:
  "extractIDFromURL (extractIDFromURL ''https://www.gtft.cn/article/id/a/article/doi/b'')
     \<noteq> extractIDFromURL ''https://www.gtft.cn/article/id/a/article/doi/b''"
  by (simp add: extractIDFromURL_def LastIndex_def)

section \<open>Properties of the backoff\<close>

lemma wrap64_id: "- (2 ^ 63) \<le> x \<Longrightarrow> x < 2 ^ 63 \<Longrightarrow> wrap64 x = x"
  by (simp add: wrap64_def)

lemma backoff_small:
  assumes "1 \<le> k" "k \<le> 34"
  shows "backoffDuration k = min (2 ^ nat (k - 1)) 30 * Second"
proof -
  define n where "n = nat (k - 1)"
  have n: "n \<le> 33" "k - 1 = int n" using assms by (simp_all add: n_def)
  have p_le: "(2::int) ^ n \<le> 2 ^ 33" using n(1) by (intro power_increasing) simp_all
  have p_pos: "(0::int) < 2 ^ n" by simp
  have w1: "wrap64 (k - 1) = int n" using n by (simp add: wrap64_id)
  have u1: "to_uint64 (int n) = int n" using n(1) by (simp add: to_uint64_def)
  have w0: "wrap64 (2 ^ n) = 2 ^ n"
  proof (rule wrap64_id)
    show "- (2 ^ 63) \<le> (2::int) ^ n" by (rule order_trans [of _ 0]) simp_all
    show "(2::int) ^ n < 2 ^ 63" using p_le by simp
  qed
  have s1: "shl64 1 (int n) = 2 ^ n"
    using n(1) by (simp add: shl64_def w0)
  have m_le: "(2::int) ^ n * 1000000000 \<le> 2 ^ 33 * 1000000000"
    using p_le by simp
  have w2: "wrap64 (2 ^ n * Second) = 2 ^ n * Second"
    unfolding Second_def
  proof (rule wrap64_id)
    show "- (2 ^ 63) \<le> (2::int) ^ n * 1000000000" by (rule order_trans [of _ 0]) simp_all
    show "(2::int) ^ n * 1000000000 < 2 ^ 63" using m_le by simp
  qed
  have w3: "wrap64 (30 * Second) = 30 * Second" by (simp add: Second_def wrap64_def)
  have b: "backoffDuration k = (if 2 ^ n * Second > 30 * Second then 30 * Second else 2 ^ n * Second)"
    by (simp add: backoffDuration_def w1 u1 s1 w2 w3 Let_def)
  show ?thesis unfolding b n_def [symmetric] by (simp add: Second_def min_def)
qed


text \<open>
  Claim C7 holds for attempts 1 to 34 (\<open>backoff_small\<close>). From attempt 35 on the
  product \<open>2^(k-1) * 1000000000\<close> leaves the range of \<open>int64\<close>: at 35 the duration is
  negative and smaller than the one of attempt 34, and from 65 on the shift itself
  gives 0.
\<close>

theorem backoffDuration_overflow:
  "backoffDuration 34 = 30 * Second
   \<and> backoffDuration 35 = - 1266874889709551616
   \<and> backoffDuration 35 < backoffDuration 34
   \<and> backoffDuration 35 \<noteq> min (2 ^ 34) 30 * Second
   \<and> backoffDuration 65 = 0"
  by (simp add: backoffDuration_def wrap64_def shl64_def to_uint64_def Second_def)

section \<open>Properties of the fetcher\<close>

lemma wrap64_succ:
  assumes "MinInt64 \<le> a" "a < MaxInt64"
  shows "wrap64 (a + 1) = a + 1"
  using assms by (simp add: wrap64_def MinInt64_def MaxInt64_def)

lemma fetch_loop_rule:
  assumes mr: "maxRetries f < MaxInt64" and lo: "MinInt64 \<le> attempts"
    and exhausted: "\<And>a le io. \<not> a \<le> maxRetries f \<Longrightarrow> Q a le io (fetch_failed url start a le io)"
    and brk: "\<And>a le io e io'. a \<le> maxRetries f \<Longrightarrow>
        loop_pass env url dl start a io = Break e io' \<Longrightarrow>
        Q a le io (fetch_failed url start a (Some e) io')"
    and succ: "\<And>a le io r io'. a \<le> maxRetries f \<Longrightarrow>
        loop_pass env url dl start a io = Success r io' \<Longrightarrow>
        Q a le io ((Some r, None), io')"
    and retry: "\<And>a le io e io' res. a \<le> maxRetries f \<Longrightarrow>
        loop_pass env url dl start a io = Retry e io' \<Longrightarrow>
        Q (a + 1) (Some e) io' res \<Longrightarrow> Q a le io res"
  shows "\<exists>res. fetch_loop f env url dl start attempts lastError io = Some res
           \<and> Q attempts lastError io res"
  using lo
proof (induction "nat (maxRetries f + 1 - attempts)" arbitrary: attempts lastError io
    rule: less_induct)
  case less
  show ?case
  proof (cases "attempts \<le> maxRetries f")
    case False
    then show ?thesis
      by (subst fetch_loop.simps) (simp add: exhausted)
  next
    case True
    show ?thesis
    proof (cases "loop_pass env url dl start attempts io")
      case (Retry e io')
      have w: "wrap64 (attempts + 1) = attempts + 1"
        using less.prems True mr by (intro wrap64_succ) simp_all
      have "nat (maxRetries f + 1 - (attempts + 1)) < nat (maxRetries f + 1 - attempts)"
        using True by simp
      moreover have "MinInt64 \<le> attempts + 1" using less.prems by simp
      ultimately obtain res where
        res: "fetch_loop f env url dl start (attempts + 1) (Some e) io' = Some res"
          "Q (attempts + 1) (Some e) io' res"
        using less.hyps by blast
      have "fetch_loop f env url dl start attempts lastError io = Some res"
        by (subst fetch_loop.simps) (simp add: True Retry w res(1))
      moreover have "Q attempts lastError io res"
        by (rule retry [OF True Retry res(2)])
      ultimately show ?thesis by blast
    next
      case (Break e io')
      have "fetch_loop f env url dl start attempts lastError io
              = Some (fetch_failed url start attempts (Some e) io')"
        by (subst fetch_loop.simps) (simp add: True Break)
      with brk [OF True Break] show ?thesis by blast
    next
      case (Success r io')
      have "fetch_loop f env url dl start attempts lastError io = Some ((Some r, None), io')"
        by (subst fetch_loop.simps) (simp add: True Success)
      with succ [OF True Success] show ?thesis by blast
    qed
  qed
qed

lemma loop_pass_Success:
  assumes "loop_pass env url dl start a io = Success r io'"
  shows "\<exists>body el. env url a (io_now io) dl = (Response (fr_StatusCode r) body, el)
           \<and> fr_StatusCode r < 400 \<and> fr_Body r = Some body \<and> fr_Error r = None
           \<and> fr_Attempts r = a \<and> fr_URL r = url"
  using assms
  by (auto simp: loop_pass_def split: prod.splits attempt_outcome.splits if_splits)

lemma Fetch_returns:
  assumes mr: "maxRetries f < MaxInt64"
  shows "\<exists>fr io'. Fetch f env url io = Some ((Some fr, None), io')
     \<and> (fr_Error fr = None \<longrightarrow>
          (\<exists>t body el. env url (fr_Attempts fr) t (io_now io + timeout f)
                 = (Response (fr_StatusCode fr) body, el)
             \<and> fr_Body fr = Some body)
           \<and> fr_StatusCode fr < 400 \<and> 1 \<le> fr_Attempts fr \<and> fr_Attempts fr \<le> maxRetries f)
     \<and> (fr_Error fr \<noteq> None \<longrightarrow>
          (\<exists>last. fr_Error fr = Some (ErrMaxRetries last))
           \<and> fr_StatusCode fr = 0 \<and> fr_Body fr = None)"
proof -
  let ?dl = "io_now io + timeout f"
  define R where "R = (\<lambda>fr::FetchResult.
       (fr_Error fr = None \<longrightarrow>
          (\<exists>t body el. env url (fr_Attempts fr) t ?dl = (Response (fr_StatusCode fr) body, el)
             \<and> fr_Body fr = Some body)
           \<and> fr_StatusCode fr < 400 \<and> fr_Attempts fr \<le> maxRetries f)
     \<and> (fr_Error fr \<noteq> None \<longrightarrow>
          (\<exists>last. fr_Error fr = Some (ErrMaxRetries last))
           \<and> fr_StatusCode fr = 0 \<and> fr_Body fr = None))"
  define Q where "Q = (\<lambda>(a::int) (le::error option) (i::fetch_io)
      (res::(FetchResult option \<times> error option) \<times> fetch_io).
     \<exists>fr io'. res = ((Some fr, None), io') \<and> R fr \<and> (fr_Error fr = None \<longrightarrow> a \<le> fr_Attempts fr))"
  have "\<exists>res. fetch_loop f env url ?dl (io_now io) 1 None io = Some res \<and> Q 1 None io res"
  proof (rule fetch_loop_rule [OF mr])
    show "MinInt64 \<le> 1" by (simp add: MinInt64_def)
  next
    fix a le i assume "\<not> a \<le> maxRetries f"
    show "Q a le i (fetch_failed url (io_now io) a le i)"
      by (simp add: Q_def R_def fetch_failed_def)
  next
    fix a le i e i'
    show "Q a le i (fetch_failed url (io_now io) a (Some e) i')"
      by (simp add: Q_def R_def fetch_failed_def)
  next
    fix a le i r i'
    assume a: "a \<le> maxRetries f" and s: "loop_pass env url ?dl (io_now io) a i = Success r i'"
    from loop_pass_Success [OF s] obtain body el where
      e: "env url a (io_now i) ?dl = (Response (fr_StatusCode r) body, el)"
      and r: "fr_StatusCode r < 400" "fr_Body r = Some body" "fr_Error r = None" "fr_Attempts r = a"
      by blast
    have "R r" unfolding R_def using e r a by auto
    then show "Q a le i ((Some r, None), i')" using r by (simp add: Q_def)
  next
    fix a le i e i' res
    assume "Q (a + 1) (Some e) i' res"
    then obtain fr io' where "res = ((Some fr, None), io')" "R fr"
      "fr_Error fr = None \<longrightarrow> a + 1 \<le> fr_Attempts fr"
      by (auto simp: Q_def)
    then show "Q a le i res" unfolding Q_def by auto
  qed
  then obtain fr io' where "fetch_loop f env url ?dl (io_now io) 1 None io = Some ((Some fr, None), io')"
    "R fr" "fr_Error fr = None \<longrightarrow> 1 \<le> fr_Attempts fr"
    by (auto simp: Q_def)
  then show ?thesis unfolding Fetch_def R_def
    by (intro exI [of _ fr] exI [of _ io']) auto
qed

lemma main_never_fetch_failed:
  assumes "maxRetries f < MaxInt64"
  shows "\<exists>r. main_processFunc f env parse io url = Some r \<and> (\<forall>d e. r \<noteq> Return d (Some (ErrFetchFailed e)))
      \<and> (\<forall>m. r \<noteq> Panics m)"
proof -
  from Fetch_returns [OF assms, of env url io] obtain fr io' where
    "Fetch f env url io = Some ((Some fr, None), io')" by blast
  then show ?thesis
    by (simp add: main_processFunc_def split: option.splits sum.splits)
qed




lemma time_Sleep_full:
  "list_all sleep_runs_in_full (io_log io) \<Longrightarrow>
   list_all sleep_runs_in_full (io_log (time_Sleep a (backoffDuration a) io))"
  by (simp add: time_Sleep_def sleep_runs_in_full_def)

lemma do_request_full:
  "list_all sleep_runs_in_full (io_log io) \<Longrightarrow>
   list_all sleep_runs_in_full (io_log (do_request a el io))"
  by (simp add: do_request_def sleep_runs_in_full_def)

lemma loop_pass_full:
  assumes "list_all sleep_runs_in_full (io_log io)"
  shows "case loop_pass env url dl start a io of
           Retry e io' \<Rightarrow> list_all sleep_runs_in_full (io_log io')
         | Break e io' \<Rightarrow> list_all sleep_runs_in_full (io_log io')
         | Success r io' \<Rightarrow> list_all sleep_runs_in_full (io_log io')"
  using assms
  by (simp add: loop_pass_def time_Sleep_full do_request_full
      split: prod.splits attempt_outcome.splits)

lemma fetch_loop_full:
  assumes run: "fetch_loop f env url dl start a le io = Some res"
  shows "list_all sleep_runs_in_full (io_log io) \<longrightarrow> list_all sleep_runs_in_full (io_log (snd res))"
proof (rule fetch_loop.raw_induct [where
      P = "\<lambda>f env url dl start a le io res.
             list_all sleep_runs_in_full (io_log io)
             \<longrightarrow> list_all sleep_runs_in_full (io_log (snd res))", OF _ run])
  fix fl :: "Fetcher \<Rightarrow> http_env \<Rightarrow> string \<Rightarrow> int \<Rightarrow> int \<Rightarrow> int \<Rightarrow> error option \<Rightarrow> fetch_io
     \<Rightarrow> ((FetchResult option \<times> error option) \<times> fetch_io) option"
    and f env url dl start a le io res
  assume IH: "\<And>f env url dl start a le io res. fl f env url dl start a le io = Some res \<Longrightarrow>
      list_all sleep_runs_in_full (io_log io) \<longrightarrow> list_all sleep_runs_in_full (io_log (snd res))"
    and eq: "(if a \<le> maxRetries f then
        (case loop_pass env url dl start a io of
           Retry e io' \<Rightarrow> fl f env url dl start (wrap64 (a + 1)) (Some e) io'
         | Break e io' \<Rightarrow> Some (fetch_failed url start a (Some e) io')
         | Success result io' \<Rightarrow> Some ((Some result, None), io'))
      else Some (fetch_failed url start a le io)) = Some res"
  show "list_all sleep_runs_in_full (io_log io) \<longrightarrow> list_all sleep_runs_in_full (io_log (snd res))"
  proof
    assume full: "list_all sleep_runs_in_full (io_log io)"
    note lp = loop_pass_full [OF full, of env url dl start a]
    show "list_all sleep_runs_in_full (io_log (snd res))"
    proof (cases "a \<le> maxRetries f")
      case False
      with eq full show ?thesis by (auto simp: fetch_failed_def)
    next
      case True
      show ?thesis
      proof (cases "loop_pass env url dl start a io")
        case (Retry e io')
        with eq True have "fl f env url dl start (wrap64 (a + 1)) (Some e) io' = Some res"
          by simp
        then have ih: "list_all sleep_runs_in_full (io_log io')
            \<longrightarrow> list_all sleep_runs_in_full (io_log (snd res))"
          by (rule IH)
        from lp Retry have "list_all sleep_runs_in_full (io_log io')" by simp
        with ih show ?thesis by blast
      next
        case (Break e io')
        with eq True lp show ?thesis by (auto simp: fetch_failed_def)
      next
        case (Success r io')
        with eq True lp show ?thesis by auto
      qed
    qed
  qed
qed

text \<open>
  Claim C10. For a fetcher whose retry ceiling is below the largest \<open>int\<close> (at the
  ceiling \<open>math.MaxInt64\<close> the loop counter wraps and a fetch that never succeeds never
  returns), for every URL, every environment and every starting clock: \<open>Fetch\<close>
  returns, its pointer is not nil and its \<open>error\<close> is nil. A result without
  \<open>Error\<close> comes from a response below 400 to the attempt it records; every other
  outcome carries \<open>Error\<close>, the wrapped last error, with status 0 and no body. So the
  caller's test of the returned \<open>error\<close> in \<open>main\<close> never fires, and the caller does
  not dereference nil.
\<close>

theorem Fetch_reports_failures_in_result:
  assumes "maxRetries f < MaxInt64"
  shows "(\<exists>fr io'. Fetch f env url io = Some ((Some fr, None), io')
     \<and> (fr_Error fr = None \<longrightarrow>
          (\<exists>t body el. env url (fr_Attempts fr) t (io_now io + timeout f)
                 = (Response (fr_StatusCode fr) body, el)
             \<and> fr_Body fr = Some body)
           \<and> fr_StatusCode fr < 400 \<and> 1 \<le> fr_Attempts fr \<and> fr_Attempts fr \<le> maxRetries f)
     \<and> (fr_Error fr \<noteq> None \<longrightarrow>
          (\<exists>last. fr_Error fr = Some (ErrMaxRetries last))
           \<and> fr_StatusCode fr = 0 \<and> fr_Body fr = None))
   \<and> (\<exists>r. main_processFunc f env parse io url = Some r
         \<and> (\<forall>d e. r \<noteq> Return d (Some (ErrFetchFailed e))) \<and> (\<forall>m. r \<noteq> Panics m))"
  using Fetch_returns [OF assms, of env url io] main_never_fetch_failed [OF assms, of env parse io url]
  by (rule conjI)

theorem Fetch_reports_failures_in_result_witness:
  "maxRetries (NewFetcher (30 * Second) 3 5 False) < MaxInt64
   \<and> (\<exists>fr io'. Fetch (NewFetcher (30 * Second) 3 5 False) env_404 ''https://www.gtft.cn/x'' io0
                  = Some ((Some fr, None), io')
         \<and> fr_Error fr \<noteq> None)
   \<and> (\<exists>r. main_processFunc (NewFetcher (30 * Second) 3 5 False) env_404 no_parse io0
              ''https://www.gtft.cn/x'' = Some r
         \<and> (\<forall>d e. r \<noteq> Return d (Some (ErrFetchFailed e))))"
proof -
  have h: "maxRetries (NewFetcher (30 * Second) 3 5 False) < MaxInt64"
    by (simp add: NewFetcher_def MaxInt64_def)
  have e: "env_404 ''https://www.gtft.cn/x'' a t d \<noteq> (Response st body, el) \<or> \<not> st < 400"
    for a t d st body el
    by (simp add: env_404_def)
  from Fetch_reports_failures_in_result [OF h, of env_404 "''https://www.gtft.cn/x''" io0 no_parse]
  show ?thesis using h e by blast
qed

text \<open>
  Claim C3. The crawler's default fetcher (timeout 30 s, 3 retries) against the
  server that always answers 404: one request is made and no sleep; the result
  carries the error "max retries exceeded" around "HTTP error: 404"; the work
  function of \<open>main\<close> returns that error, and \<open>updateStats\<close> counts the task as failed,
  not skipped. But the attempt count recorded in the result is 0, not 1: \<open>break\<close>
  leaves the loop before \<open>attempts++\<close>, and the code after the loop records
  \<open>attempts - 1\<close>.
\<close>

theorem Fetch_404_records_zero_attempts:
  "Fetch (NewFetcher (30 * Second) 3 5 False) env_404 ''https://www.gtft.cn/article/id/gone'' io0
   = Some ((Some \<lparr>fr_URL = ''https://www.gtft.cn/article/id/gone'', fr_StatusCode = 0,
                  fr_Body = None,
                  fr_Error = Some (ErrMaxRetries (Some (ErrHTTPStatus 404))),
                  fr_Attempts = 0, fr_Duration = 10 * Millisecond\<rparr>, None),
           \<lparr>io_now = 10 * Millisecond, io_log = [EvRequest 1 0]\<rparr>)
   \<and> main_processFunc (NewFetcher (30 * Second) 3 5 False) env_404 no_parse io0
        ''https://www.gtft.cn/article/id/gone''
      = Some (Return None (Some (ErrHTTP (ErrMaxRetries (Some (ErrHTTPStatus 404))))))
   \<and> map_option (\<lambda>(st, copy). (Completed st, Failed st, Skipped st, Status (r_Task copy)))
        (updateStats term_ops
           \<lparr>Total = 1, Completed = 0, Failed = 0, Skipped = 0, SuccessRate = F64_of_int 0,
             AvgTime = 0, StartTime = 0, ETA = 0\<rparr>
           \<lparr>r_Task = (NewTask ''gone'' ''https://www.gtft.cn/article/id/gone'' 0)
                        \<lparr>Status := TaskProcessing\<rparr>,
             r_Data = (None :: string option),
             r_Error = Some (ErrHTTP (ErrMaxRetries (Some (ErrHTTPStatus 404)))),
             r_Time = 10 * Millisecond\<rparr>
           (10 * Millisecond) (10 * Millisecond))
      = Some (0, 1, 0, TaskFailed)"
  by (simp add: Fetch_def fetch_loop.simps loop_pass_def NewFetcher_def env_404_def io0_def
      do_request_def wrap64_def Second_def Millisecond_def fetch_failed_def Since_def sat64_def
      MinInt64_def MaxInt64_def main_processFunc_def no_parse_def
      updateStats_def upd_avg_def upd_load_def upd_store_def upd_rates_def quo64_def
      term_ops_def NewTask_def Let_def)

text \<open>
  Claim C8, as amended. \<open>time.Sleep\<close> takes no context: every backoff sleep that a
  fetch performs lasts its whole backoff duration (and no time when that duration
  is not positive), whatever the timeout of the fetcher is.
\<close>

theorem Fetch_sleeps_run_in_full:
  assumes "Fetch f env url io = Some (r, io')" "io_log io = []"
  shows "list_all sleep_runs_in_full (io_log io')"
proof -
  from assms(1)
  have "fetch_loop f env url (io_now io + timeout f) (io_now io) 1 None io = Some (r, io')"
    by (simp add: Fetch_def)
  from fetch_loop_full [OF this] assms(2) show ?thesis by simp
qed

theorem Fetch_sleeps_run_in_full_witness:
  "Fetch (NewFetcher (500 * Millisecond) 2 5 False) env_refused ''https://www.gtft.cn/x'' io0
     = Some ((Some \<lparr>fr_URL = ''https://www.gtft.cn/x'', fr_StatusCode = 0, fr_Body = None,
                    fr_Error = Some (ErrMaxRetries
                                 (Some (ErrHTTPRequest ''context deadline exceeded''))),
                    fr_Attempts = 2, fr_Duration = 3 * Second\<rparr>, None),
             \<lparr>io_now = 3 * Second,
               io_log = [EvSleep 2 Second (3 * Second), EvRequest 2 Second,
                         EvSleep 1 0 Second, EvRequest 1 0]\<rparr>)
   \<and> io_log io0 = []
   \<and> list_all sleep_runs_in_full
        [EvSleep 2 Second (3 * Second), EvRequest 2 Second, EvSleep 1 0 Second, EvRequest 1 0]"
proof -
  have run: "Fetch (NewFetcher (500 * Millisecond) 2 5 False) env_refused ''https://www.gtft.cn/x'' io0
     = Some ((Some \<lparr>fr_URL = ''https://www.gtft.cn/x'', fr_StatusCode = 0, fr_Body = None,
                    fr_Error = Some (ErrMaxRetries
                                 (Some (ErrHTTPRequest ''context deadline exceeded''))),
                    fr_Attempts = 2, fr_Duration = 3 * Second\<rparr>, None),
             \<lparr>io_now = 3 * Second,
               io_log = [EvSleep 2 Second (3 * Second), EvRequest 2 Second,
                         EvSleep 1 0 Second, EvRequest 1 0]\<rparr>)"
    by (simp add: Fetch_def fetch_loop.simps loop_pass_def NewFetcher_def env_refused_def io0_def
      time_Sleep_def do_request_def backoffDuration_def wrap64_def shl64_def to_uint64_def
      Second_def Millisecond_def fetch_failed_def Since_def sat64_def MinInt64_def MaxInt64_def)
  have log: "io_log io0 = []" by (simp add: io0_def)
  from Fetch_sleeps_run_in_full [OF run log] run log show ?thesis by simp
qed

text \<open>
  Claim C8 as stated fails. With a timeout of 500 ms the deadline falls inside the
  first backoff sleep, which starts at 0 and was due to take 1 s; the sleep ends
  at 1 s, not at the deadline, and a second sleep of 2 s follows. The fetch takes
  3 s.
\<close>

theorem Fetch_sleep_ignores_deadline:
  "Fetch (NewFetcher (500 * Millisecond) 2 5 False) env_refused ''https://www.gtft.cn/x'' io0
     = Some ((Some \<lparr>fr_URL = ''https://www.gtft.cn/x'', fr_StatusCode = 0, fr_Body = None,
                    fr_Error = Some (ErrMaxRetries
                                 (Some (ErrHTTPRequest ''context deadline exceeded''))),
                    fr_Attempts = 2, fr_Duration = 3 * Second\<rparr>, None),
             \<lparr>io_now = 3 * Second,
               io_log = [EvSleep 2 Second (3 * Second), EvRequest 2 Second,
                         EvSleep 1 0 Second, EvRequest 1 0]\<rparr>)
   \<and> \<not> list_all (sleep_aborts_at_deadline (io_now io0 + 500 * Millisecond))
        [EvSleep 2 Second (3 * Second), EvRequest 2 Second, EvSleep 1 0 Second, EvRequest 1 0]"
  by (simp add: Fetch_def fetch_loop.simps loop_pass_def NewFetcher_def env_refused_def io0_def
      time_Sleep_def do_request_def backoffDuration_def wrap64_def shl64_def to_uint64_def
      Second_def Millisecond_def fetch_failed_def Since_def sat64_def MinInt64_def MaxInt64_def
      sleep_aborts_at_deadline_def)

section \<open>Properties of the statistics update\<close>

lemma wrap_add_left_gen:
  "((x + h) mod m - h + y + h) mod m - h = (x + y + h) mod m - (h::int)"
proof -
  have "(x + h) mod m - h + y + h = (x + h) mod m + y" by simp
  then have "((x + h) mod m - h + y + h) mod m = ((x + h) mod m + y) mod m" by simp
  also have "\<dots> = (x + h + y) mod m" by (rule mod_add_left_eq)
  also have "x + h + y = x + y + h" by simp
  finally show ?thesis by simp
qed

lemma wrap64_add_left: "wrap64 (wrap64 x + y) = wrap64 (x + y)"
  unfolding wrap64_def by (rule wrap_add_left_gen)

lemma abs_div_le:
  assumes "0 < (b::int)"
  shows "0 \<le> \<bar>x\<bar> div b \<and> \<bar>x\<bar> div b \<le> \<bar>x\<bar>"
proof
  show "0 \<le> \<bar>x\<bar> div b" using assms by (simp add: pos_imp_zdiv_nonneg_iff)
  have "\<bar>x\<bar> div b \<le> \<bar>x\<bar> div 1"
    by (rule zdiv_mono2) (use assms in simp_all)
  then show "\<bar>x\<bar> div b \<le> \<bar>x\<bar>" by simp
qed

lemma quo64_pos_divisor:
  assumes "MinInt64 \<le> x" "x \<le> MaxInt64" "0 < b"
  shows "quo64 x b = sgn x * (\<bar>x\<bar> div b)"
proof -
  define q where "q = \<bar>x\<bar> div b"
  have q: "0 \<le> q" "q \<le> \<bar>x\<bar>" using abs_div_le [OF assms(3), of x] by (simp_all add: q_def)
  have r: "- (2 ^ 63) \<le> x" "x < 2 ^ 63" using assms(1,2) by (simp_all add: MinInt64_def MaxInt64_def)
  have "- (2 ^ 63) \<le> sgn x * q \<and> sgn x * q < 2 ^ 63"
  proof (cases "x < 0")
    case True
    then have "sgn x * q = - q" by simp
    moreover have "q \<le> - x" using q(2) True by simp
    ultimately show ?thesis using q(1) r by simp
  next
    case False
    then have "sgn x * q = (if x = 0 then 0 else q)" by (simp add: sgn_if)
    moreover have "q \<le> x" using q(2) False by simp
    ultimately show ?thesis using q(1) r by simp
  qed
  then have "wrap64 (sgn x * q) = sgn x * q"
    by (intro wrap64_id) simp_all
  then show ?thesis using assms(3) by (simp add: quo64_def q_def)
qed

text \<open>
  Claim C6. Let \<open>n\<close> be \<open>Completed + Failed\<close> before the call. When the counts are
  not negative and neither \<open>n + 1\<close> nor \<open>AvgTime * n + Time\<close> leaves the range of
  \<open>int64\<close>, \<open>updateStats\<close> returns, the new average is \<open>(AvgTime * n + Time) / (n + 1)\<close>
  with Go's integer division (the quotient truncated towards zero), one of the two
  counts has grown by one, and the success rate is \<open>Completed / (Completed + Failed) *
  100\<close> of the new counts, computed with the \<open>float64\<close> operations in this order. The
  rate is inside the guard \<open>completed > 0\<close>: statistics whose count is not positive
  are left as they are.
\<close>

theorem updateStats_average_and_rate:
  assumes nonneg: "0 \<le> Completed st" "0 \<le> Failed st"
    and count: "Completed st + Failed st < MaxInt64"
    and sum: "MinInt64 \<le> AvgTime st * (Completed st + Failed st) + r_Time result"
             "AvgTime st * (Completed st + Failed st) + r_Time result \<le> MaxInt64"
  shows "(\<exists>st' copy. updateStats ops st result now1 now2 = Some (st', copy)
     \<and> AvgTime st' = sgn (AvgTime st * (Completed st + Failed st) + r_Time result)
          * (\<bar>AvgTime st * (Completed st + Failed st) + r_Time result\<bar>
               div (Completed st + Failed st + 1))
     \<and> Completed st' + Failed st' = Completed st + Failed st + 1
     \<and> Completed st' = (if r_Error result = None then Completed st + 1 else Completed st)
     \<and> SuccessRate st' =
          f64_mul ops (f64_div ops (f64_of_int ops (Completed st'))
                                   (f64_of_int ops (Completed st' + Failed st')))
                      (f64_of_int ops 100))
   \<and> (wrap64 (Completed s + Failed s) \<le> 0 \<longrightarrow> upd_rates ops s now1 now2 = s)"
proof -
  let ?n = "Completed st + Failed st"
  let ?x = "AvgTime st * ?n + r_Time result"
  have n: "wrap64 ?n = ?n" using nonneg count by (intro wrap64_id) (simp_all add: MaxInt64_def)
  have n1: "wrap64 (?n + 1) = ?n + 1" using nonneg count
    by (intro wrap64_id) (simp_all add: MaxInt64_def)
  have x: "wrap64 (wrap64 (AvgTime st * ?n) + r_Time result) = ?x"
    unfolding wrap64_add_left using sum by (intro wrap64_id) (simp_all add: MaxInt64_def MinInt64_def)
  have q: "quo64 ?x (?n + 1) = sgn ?x * (\<bar>?x\<bar> div (?n + 1))"
    using sum nonneg by (intro quo64_pos_divisor) simp_all
  have avg: "upd_avg st result = Some (st\<lparr>AvgTime := sgn ?x * (\<bar>?x\<bar> div (?n + 1))\<rparr>)"
    using nonneg by (simp add: upd_avg_def Let_def n n1 x q)
  have c1: "wrap64 (Completed st + 1) = Completed st + 1" using nonneg count
    by (intro wrap64_id) (simp_all add: MaxInt64_def)
  have f1: "wrap64 (Failed st + 1) = Failed st + 1" using nonneg count
    by (intro wrap64_id) (simp_all add: MaxInt64_def)
  have n2: "wrap64 (Completed st + Failed st + 1) = ?n + 1" using n1 by simp
  have n3: "wrap64 (Completed st + 1 + Failed st) = ?n + 1" using n1 by (simp add: add.commute add.left_commute)
  have n4: "wrap64 (Completed st + (Failed st + 1)) = ?n + 1" using n1 by (simp add: add.assoc)
  have n5: "wrap64 (Completed st + (1 + Failed st)) = Completed st + (1 + Failed st)"
    using n1 by (simp add: add.commute add.left_commute)
  have pos: "0 < Completed st + (1 + Failed st)" "0 < Completed st + (Failed st + 1)"
    using nonneg by simp_all
  have main: "\<exists>st' copy. updateStats ops st result now1 now2 = Some (st', copy)
     \<and> AvgTime st' = sgn (AvgTime st * (Completed st + Failed st) + r_Time result)
          * (\<bar>AvgTime st * (Completed st + Failed st) + r_Time result\<bar>
               div (Completed st + Failed st + 1))
     \<and> Completed st' + Failed st' = Completed st + Failed st + 1
     \<and> Completed st' = (if r_Error result = None then Completed st + 1 else Completed st)
     \<and> SuccessRate st' =
          f64_mul ops (f64_div ops (f64_of_int ops (Completed st'))
                                   (f64_of_int ops (Completed st' + Failed st')))
                      (f64_of_int ops 100)"
    using nonneg
    by (cases "r_Error result")
      (simp_all add: updateStats_def avg upd_load_def upd_store_def upd_rates_def Let_def
        c1 f1 n2 n3 n4 n5 pos add.assoc)
  have guard: "wrap64 (Completed s + Failed s) \<le> 0 \<longrightarrow> upd_rates ops s now1 now2 = s"
    by (simp add: upd_rates_def Let_def)
  from main guard show ?thesis by (rule conjI)
qed

theorem updateStats_average_and_rate_witness:
  "0 \<le> Completed stats0 \<and> 0 \<le> Failed stats0
   \<and> Completed stats0 + Failed stats0 < MaxInt64
   \<and> MinInt64 \<le> AvgTime stats0 * (Completed stats0 + Failed stats0) + r_Time result0
   \<and> AvgTime stats0 * (Completed stats0 + Failed stats0) + r_Time result0 \<le> MaxInt64
   \<and> (\<exists>st' copy. updateStats term_ops stats0 result0 7 8 = Some (st', copy)
         \<and> AvgTime st' = 200 \<and> Completed st' = 3 \<and> Failed st' = 1
         \<and> SuccessRate st' = F64_mul (F64_div (F64_of_int 3) (F64_of_int 4)) (F64_of_int 100))
   \<and> wrap64 (Completed stats_zero + Failed stats_zero) \<le> 0
   \<and> upd_rates term_ops stats_zero 7 8 = stats_zero"
proof -
  have h: "0 \<le> Completed stats0" "0 \<le> Failed stats0"
    "Completed stats0 + Failed stats0 < MaxInt64"
    "MinInt64 \<le> AvgTime stats0 * (Completed stats0 + Failed stats0) + r_Time result0"
    "AvgTime stats0 * (Completed stats0 + Failed stats0) + r_Time result0 \<le> MaxInt64"
    by (simp_all add: stats0_def result0_def MaxInt64_def MinInt64_def)
  have z: "wrap64 (Completed stats_zero + Failed stats_zero) \<le> 0"
    by (simp add: stats_zero_def wrap64_def)
  have v: "AvgTime stats0 = 100" "Completed stats0 = 2" "Failed stats0 = 1"
    "r_Time result0 = 500" "r_Error result0 = None"
    by (simp_all add: stats0_def result0_def)
  from updateStats_average_and_rate [OF h, of term_ops 7 8 stats_zero] z
  have "(\<exists>st' copy. updateStats term_ops stats0 result0 7 8 = Some (st', copy)
         \<and> AvgTime st' = 200 \<and> Completed st' = 3 \<and> Failed st' = 1
         \<and> SuccessRate st' = F64_mul (F64_div (F64_of_int 3) (F64_of_int 4)) (F64_of_int 100))
        \<and> upd_rates term_ops stats_zero 7 8 = stats_zero"
    unfolding v by (auto simp: term_ops_def)
  with h z show ?thesis by blast
qed

end
